theory Spec2Isabelle
  imports Complex_Main "HOL-Library.Multiset" "HOL-Library.Sublist"
begin

section \<open>Life-goals dashboard: the state logic of App.tsx\<close>

text \<open>
  The development embeds the data and state logic of
  \<^verbatim>\<open>src/workspace/life-goals-dashboard/src/App.tsx\<close>: the goal record, the persistence
  reader \<^verbatim>\<open>loadGoals\<close>, the derived view \<^verbatim>\<open>filteredGoals\<close>, the form submission
  \<^verbatim>\<open>GoalForm.handleSubmit\<close> and the handlers of \<^verbatim>\<open>App\<close> that change the goal list.

  Conventions. JavaScript numbers that the program only ever uses as integers (the step
  counters and the millisecond timestamps) are \<open>int\<close>: the integer-valued doubles, read as
  the integers they denote. Comparisons of doubles are comparisons of these integers. Adding
  or subtracting 1 is exact only up to \<open>2 ^ 53\<close>, so the step handlers use \<open>number_add\<close>,
  which rounds as the double addition does. The number typed into the steps field may be a
  fraction or \<^verbatim>\<open>NaN\<close>, so it has a type of its own. A field declared with \<^verbatim>\<open>?\<close> is an
  \<open>option\<close>. React state and refs of the \<^verbatim>\<open>App\<close> component are the fields of one record
  that every handler takes and returns; a functional update \<^verbatim>\<open>setGoals(prev => ...)\<close> is
  applied to the current value of the field.
\<close>

subsection \<open>Data model\<close>

datatype Priority = Low | Medium | High

text \<open>The interface \<^verbatim>\<open>Goal\<close>. The field \<^verbatim>\<open>id\<close> is called \<open>id_goal\<close>.\<close>

record Goal =
  id_goal :: string
  title :: string
  description :: string
  deadline :: string
  priority :: Priority
  steps :: int
  completedSteps :: int
  completed :: bool
  createdAt :: int
  completedAt :: "int option"

datatype FilterKey = FilterAll | FilterActive | FilterCompleted

datatype SortKey = CreatedDesc | DeadlineAsc | DeadlineDesc | PriorityDesc | PriorityAsc

subsection \<open>State of the App component\<close>

text \<open>
  \<open>goals\<close>, \<open>isModalOpen\<close>, \<open>editing\<close> and \<open>undoOpen\<close> are the \<^verbatim>\<open>useState\<close> cells,
  \<open>undoTimerRef\<close> and \<open>lastToggledRef\<close> the \<^verbatim>\<open>useRef\<close> cells. The browser's timer table is
  part of the state: \<open>timeouts\<close> lists the handles of the scheduled callbacks that have
  neither run nor been cleared, and \<open>timeoutSeq\<close> is the last handle handed out. The only
  callback the program ever schedules is \<^verbatim>\<open>() => setUndoOpen(false)\<close>.
\<close>

record App =
  goals :: "Goal list"
  isModalOpen :: bool
  editing :: "Goal option"
  undoOpen :: bool
  undoTimerRef :: "nat option"
  lastToggledRef :: "Goal option"
  timeouts :: "nat list"
  timeoutSeq :: nat

text \<open>\<^verbatim>\<open>window.setTimeout\<close> returns a fresh handle, an integer greater than zero.\<close>

definition window_setTimeout :: "App \<Rightarrow> nat \<times> App" where
  "window_setTimeout s =
     (let h = Suc (timeoutSeq s)
      in (h, s\<lparr>timeouts := timeouts s @ [h], timeoutSeq := h\<rparr>))"

definition window_clearTimeout :: "nat \<Rightarrow> App \<Rightarrow> App" where
  "window_clearTimeout h s = s\<lparr>timeouts := removeAll h (timeouts s)\<rparr>"

text \<open>
  The 5000 ms of a scheduled callback elapse: it runs \<^verbatim>\<open>setUndoOpen(false)\<close> and leaves the
  timer table. A handle that is not scheduled (any more) cannot fire.
\<close>

definition timeout_elapses :: "nat \<Rightarrow> App \<Rightarrow> App option" where
  "timeout_elapses h s =
     (if h \<in> set (timeouts s)
      then Some (s\<lparr>undoOpen := False, timeouts := removeAll h (timeouts s)\<rparr>)
      else None)"

subsection \<open>Handlers of App\<close>

text \<open>
  \<^verbatim>\<open>prev.map(g => (g.id === x.id ? x : g))\<close>, the update every handler uses.
\<close>

definition replace_by_id :: "Goal \<Rightarrow> Goal list \<Rightarrow> Goal list" where
  "replace_by_id x prev = map (\<lambda>g. if id_goal g = id_goal x then x else g) prev"

definition handleSave :: "Goal \<Rightarrow> App \<Rightarrow> App" where
  "handleSave goal s =
     (let exists = list_ex (\<lambda>g. id_goal g = id_goal goal) (goals s)
      in s\<lparr>goals := (if exists then replace_by_id goal (goals s) else goal # goals s),
            isModalOpen := False,
            editing := None\<rparr>)"


definition handleEdit :: "Goal \<Rightarrow> App \<Rightarrow> App" where
  "handleEdit goal s = s\<lparr>editing := Some goal, isModalOpen := True\<rparr>"

text \<open>\<open>ok\<close> is the answer of \<^verbatim>\<open>window.confirm\<close>.\<close>

definition handleDelete :: "bool \<Rightarrow> Goal \<Rightarrow> App \<Rightarrow> App" where
  "handleDelete ok goal s =
     (if \<not> ok then s
      else s\<lparr>goals := filter (\<lambda>g. id_goal g \<noteq> id_goal goal) (goals s)\<rparr>)"

text \<open>
  \<open>now\<close> is the value of \<^verbatim>\<open>Date.now()\<close>. A timer handle is an integer; the test
  \<^verbatim>\<open>if (undoTimerRef.current)\<close> fails for \<^verbatim>\<open>null\<close> and for \<open>0\<close>.
\<close>

definition clear_undo_timer :: "App \<Rightarrow> App" where
  "clear_undo_timer s =
     (case undoTimerRef s of
        None \<Rightarrow> s
      | Some h \<Rightarrow> if h \<noteq> 0 then window_clearTimeout h s else s)"

definition handleToggleComplete :: "int \<Rightarrow> Goal \<Rightarrow> App \<Rightarrow> App" where
  "handleToggleComplete now goal s =
     (let updated = goal\<lparr>completed := \<not> completed goal,
                         completedAt := (if \<not> completed goal then Some now else None)\<rparr>;
          s1 = s\<lparr>goals := replace_by_id updated (goals s)\<rparr>;
          s2 = s1\<lparr>lastToggledRef := Some goal\<rparr>;
          s3 = s2\<lparr>undoOpen := True\<rparr>;
          s4 = clear_undo_timer s3;
          (h, s5) = window_setTimeout s4
      in s5\<lparr>undoTimerRef := Some h\<rparr>)"

definition handleUndo :: "App \<Rightarrow> App" where
  "handleUndo s =
     (case lastToggledRef s of
        None \<Rightarrow> s
      | Some last_goal \<Rightarrow>
          clear_undo_timer
            (s\<lparr>goals := replace_by_id last_goal (goals s),
               undoOpen := False,
               lastToggledRef := None\<rparr>))"

text \<open>
  The double addition \<^verbatim>\<open>x + d\<close> for an integer-valued double \<open>x\<close> and \<open>d\<close> either \<open>1\<close> or
  \<open>- 1\<close>. The exact sum is a double when its magnitude is at most \<open>2 ^ 53\<close>. Beyond that
  doubles are 2 apart up to \<open>2 ^ 54\<close>, the exact sum lies halfway between \<open>x\<close> and
  \<open>x + 2 * d\<close>, and the tie goes to the one with the even significand, which is the multiple
  of 4. From \<open>2 ^ 54\<close> on doubles are at least 4 apart and the sum rounds back to \<open>x\<close>.
\<close>

definition number_add :: "int \<Rightarrow> int \<Rightarrow> int" where
  "number_add x d =
     (let y = x + d
      in if \<bar>y\<bar> \<le> 2 ^ 53 then y
         else if \<bar>y\<bar> < 2 ^ 54 then (if x mod 4 = 0 then x else x + 2 * d)
         else x)"

definition handleIncrementStep :: "Goal \<Rightarrow> App \<Rightarrow> App" where
  "handleIncrementStep goal s =
     (if completed goal then s
      else if completedSteps goal \<ge> steps goal then s
      else s\<lparr>goals := replace_by_id
                 (goal\<lparr>completedSteps := number_add (completedSteps goal) 1\<rparr>) (goals s)\<rparr>)"

definition handleDecrementStep :: "Goal \<Rightarrow> App \<Rightarrow> App" where
  "handleDecrementStep goal s =
     (if completed goal then s
      else if completedSteps goal \<le> 0 then s
      else s\<lparr>goals := replace_by_id
                 (goal\<lparr>completedSteps := number_add (completedSteps goal) (- 1)\<rparr>) (goals s)\<rparr>)"

text \<open>
  The component \<^verbatim>\<open>Toast\<close> renders nothing unless \<^verbatim>\<open>open\<close>; its Undo button, the only
  caller of \<^verbatim>\<open>handleUndo\<close>, exists only while \<open>undoOpen\<close> holds. \<open>None\<close>: there is no
  button to press.
\<close>

definition Toast_onUndo :: "App \<Rightarrow> App option" where
  "Toast_onUndo s = (if \<not> undoOpen s then None else Some (handleUndo s))"

subsection \<open>The creation and edit form\<close>

text \<open>
  The value of the steps field, \<^verbatim>\<open>Number(e.target.value)\<close> of a number input: a finite
  number or \<^verbatim>\<open>NaN\<close> (the two infinities are not part of the model). Finite doubles are
  read as the reals they denote; \<^verbatim>\<open>Math.round\<close> is exact on them and rounds a tie
  upwards.
\<close>

datatype js_number = NaN | Num real

definition Math_round :: "real \<Rightarrow> int" where
  "Math_round x = \<lfloor>x + 1 / 2\<rfloor>"

text \<open>\<^verbatim>\<open>Math.max(1, Math.round(Number(steps) || 1))\<close>: \<^verbatim>\<open>||\<close> replaces \<^verbatim>\<open>NaN\<close> and \<open>0\<close>.\<close>

definition coerce_steps :: "js_number \<Rightarrow> int" where
  "coerce_steps n =
     (let v = (case n of NaN \<Rightarrow> 1 | Num x \<Rightarrow> if x = 0 then 1 else x)
      in max 1 (Math_round v))"

text \<open>The \<^verbatim>\<open>useState\<close> cells of \<^verbatim>\<open>GoalForm\<close>.\<close>

record GoalForm =
  title_field :: string
  description_field :: string
  deadline_field :: string
  priority_field :: Priority
  steps_field :: js_number

text \<open>
  What \<^verbatim>\<open>handleSubmit\<close> takes from outside the program: the results of its calls
  \<^verbatim>\<open>uuidv4()\<close> and \<^verbatim>\<open>Date.now()\<close>, and the library functions \<^verbatim>\<open>String.prototype.trim\<close> and
  \<^verbatim>\<open>new Date(s).toISOString()\<close>. The latter throws a \<^verbatim>\<open>RangeError\<close> on a string that is
  not a date (the cleared date field gives the empty string): \<open>None\<close>.
\<close>

record Lib =
  uuidv4 :: string
  Date_now :: int
  trim :: "string \<Rightarrow> string"
  toISOString :: "string \<Rightarrow> string option"

text \<open>\<^verbatim>\<open>Boolean(initial && initial.id)\<close>: the empty string is falsy.\<close>

definition isEditing :: "Goal option \<Rightarrow> bool" where
  "isEditing initial = (case initial of None \<Rightarrow> False | Some g \<Rightarrow> id_goal g \<noteq> [])"

text \<open>
  \<^verbatim>\<open>handleSubmit\<close> builds the goal and hands it to \<^verbatim>\<open>onSave\<close>. \<open>None\<close>: the
  \<^verbatim>\<open>RangeError\<close> left the handler before \<^verbatim>\<open>onSave\<close> was called.
\<close>

definition handleSubmit :: "Lib \<Rightarrow> Goal option \<Rightarrow> GoalForm \<Rightarrow> Goal option" where
  "handleSubmit lib initial f =
     (case toISOString lib (deadline_field f) of
        None \<Rightarrow> None
      | Some isoString \<Rightarrow>
          Some \<lparr>id_goal = (case initial of
                             Some g \<Rightarrow> if isEditing initial then id_goal g else uuidv4 lib
                           | None \<Rightarrow> uuidv4 lib),
                title = trim lib (title_field f),
                description = trim lib (description_field f),
                deadline = isoString,
                priority = priority_field f,
                steps = coerce_steps (steps_field f),
                completedSteps = (case initial of None \<Rightarrow> 0 | Some g \<Rightarrow> completedSteps g),
                completed = (case initial of None \<Rightarrow> False | Some g \<Rightarrow> completed g),
                createdAt = (case initial of
                             Some g \<Rightarrow> if isEditing initial then createdAt g else Date_now lib
                           | None \<Rightarrow> Date_now lib),
                completedAt = (case initial of None \<Rightarrow> None | Some g \<Rightarrow> completedAt g)\<rparr>)"

text \<open>
  Submitting the form: \<^verbatim>\<open>onSave\<close> is \<^verbatim>\<open>handleSave\<close>, and \<^verbatim>\<open>initial\<close> is
  \<^verbatim>\<open>editing ?? undefined\<close>. After a \<^verbatim>\<open>RangeError\<close> the state is as before.
\<close>

definition submit_form :: "Lib \<Rightarrow> GoalForm \<Rightarrow> App \<Rightarrow> App" where
  "submit_form lib f s =
     (case handleSubmit lib (editing s) f of None \<Rightarrow> s | Some goal \<Rightarrow> handleSave goal s)"

subsection \<open>Persistence: loadGoals\<close>

datatype json =
    JNull | JBool bool | JNumber real | JString string
  | JArray "json list" | JObject "(string \<times> json) list"

datatype exn = SecurityError | SyntaxError

definition STORAGE_KEY :: string where
  "STORAGE_KEY = ''life_goals_v1''"

text \<open>
  The body of the \<^verbatim>\<open>try\<close> block. \<open>getItem\<close> is \<^verbatim>\<open>localStorage.getItem\<close>, which throws
  or returns \<^verbatim>\<open>null\<close> (\<open>None\<close>) or a string; \<open>JSON_parse\<close> is \<^verbatim>\<open>JSON.parse\<close>, which throws
  or returns a value. \<^verbatim>\<open>!raw\<close> holds for \<^verbatim>\<open>null\<close> and for the empty string. The cast
  \<^verbatim>\<open>as Goal[]\<close> checks nothing: the elements of the array are returned as parsed.
\<close>

definition loadGoals_try ::
  "(string \<Rightarrow> exn + string option) \<Rightarrow> (string \<Rightarrow> exn + json) \<Rightarrow> exn + json list" where
  "loadGoals_try getItem JSON_parse =
     (case getItem STORAGE_KEY of
        Inl e \<Rightarrow> Inl e
      | Inr None \<Rightarrow> Inr []
      | Inr (Some raw) \<Rightarrow>
          if raw = [] then Inr []
          else (case JSON_parse raw of
                  Inl e \<Rightarrow> Inl e
                | Inr (JArray parsed) \<Rightarrow> Inr parsed
                | Inr _ \<Rightarrow> Inr []))"

text \<open>The \<^verbatim>\<open>catch\<close> clause returns the empty array for whatever was thrown.\<close>

definition loadGoals ::
  "(string \<Rightarrow> exn + string option) \<Rightarrow> (string \<Rightarrow> exn + json) \<Rightarrow> json list" where
  "loadGoals getItem JSON_parse =
     (case loadGoals_try getItem JSON_parse of Inl e \<Rightarrow> [] | Inr parsed \<Rightarrow> parsed)"

subsection \<open>The derived view: filteredGoals\<close>

definition priorityOrder :: "Priority \<Rightarrow> int" where
  "priorityOrder p = (if p = High then 3 else if p = Medium then 2 else 1)"

text \<open>
  \<^verbatim>\<open>Array.prototype.sort\<close> is stable, reads a comparator result \<^verbatim>\<open>NaN\<close> (\<open>None\<close>) as
  \<open>0\<close>, and puts \<open>a\<close> before \<open>b\<close> when the comparator is negative on \<open>(a, b)\<close>. For a
  comparator that is consistent on the elements its result is that of the stable insertion
  sort below. The comparators of this program are differences of numeric keys; such a
  comparator is consistent on a list exactly when it is never \<^verbatim>\<open>NaN\<close> there. Only the
  sign of a comparator result is used, and the sign of a difference of two doubles is the
  sign of the exact difference.
\<close>

definition SortCompare :: "('a \<Rightarrow> 'a \<Rightarrow> int option) \<Rightarrow> 'a \<Rightarrow> 'a \<Rightarrow> int" where
  "SortCompare comparefn x y = (case comparefn x y of None \<Rightarrow> 0 | Some v \<Rightarrow> v)"

fun insert_stable :: "('a \<Rightarrow> 'a \<Rightarrow> int option) \<Rightarrow> 'a \<Rightarrow> 'a list \<Rightarrow> 'a list" where
  "insert_stable comparefn x [] = [x]"
| "insert_stable comparefn x (y # ys) =
     (if SortCompare comparefn x y \<le> 0 then x # y # ys
      else y # insert_stable comparefn x ys)"

fun sorted_stable :: "('a \<Rightarrow> 'a \<Rightarrow> int option) \<Rightarrow> 'a list \<Rightarrow> 'a list" where
  "sorted_stable comparefn [] = []"
| "sorted_stable comparefn (x # xs) = insert_stable comparefn x (sorted_stable comparefn xs)"

text \<open>
  Arrays are objects: \<^verbatim>\<open>list.sort\<close> changes the array \<^verbatim>\<open>list\<close> refers to, whereas the
  spread \<^verbatim>\<open>[...goals]\<close> and \<^verbatim>\<open>filter\<close> make new arrays. The store maps references to
  array contents; references below \<open>allocated\<close> are in use.
\<close>

record Store =
  arrays :: "nat \<Rightarrow> Goal list"
  allocated :: nat

definition new_array :: "Goal list \<Rightarrow> Store \<Rightarrow> nat \<times> Store" where
  "new_array xs h =
     (allocated h, h\<lparr>arrays := (arrays h)(allocated h := xs), allocated := Suc (allocated h)\<rparr>)"

definition spread :: "nat \<Rightarrow> Store \<Rightarrow> nat \<times> Store" where
  "spread r h = new_array (arrays h r) h"

definition Array_filter :: "(Goal \<Rightarrow> bool) \<Rightarrow> nat \<Rightarrow> Store \<Rightarrow> nat \<times> Store" where
  "Array_filter p r h = new_array (filter p (arrays h r)) h"

definition never_NaN :: "(Goal \<Rightarrow> Goal \<Rightarrow> int option) \<Rightarrow> Goal list \<Rightarrow> bool" where
  "never_NaN comparefn xs = list_all (\<lambda>a. list_all (\<lambda>b. comparefn a b \<noteq> None) xs) xs"

text \<open>
  \<^verbatim>\<open>list.sort(comparefn)\<close> sorts in place. With a comparator that is not consistent on the
  elements the order is implementation-defined: it is whatever the engine at hand produces,
  \<open>engine comparefn xs\<close>, of which nothing is assumed.
\<close>

definition Array_sort ::
  "((Goal \<Rightarrow> Goal \<Rightarrow> int option) \<Rightarrow> Goal list \<Rightarrow> Goal list) \<Rightarrow>
   (Goal \<Rightarrow> Goal \<Rightarrow> int option) \<Rightarrow> nat \<Rightarrow> Store \<Rightarrow> Store" where
  "Array_sort engine comparefn r h =
     h\<lparr>arrays := (arrays h)
         (r := (if never_NaN comparefn (arrays h r) then sorted_stable comparefn (arrays h r)
                else engine comparefn (arrays h r)))\<rparr>"

text \<open>
  Subtraction of two \<^verbatim>\<open>getTime()\<close> results; \<^verbatim>\<open>getTime()\<close> of an invalid date is \<^verbatim>\<open>NaN\<close>,
  and so is any difference with it.
\<close>

definition minus_time :: "int option \<Rightarrow> int option \<Rightarrow> int option" where
  "minus_time a b = (case (a, b) of (Some x, Some y) \<Rightarrow> Some (x - y) | _ \<Rightarrow> None)"

text \<open>
  The body of the \<^verbatim>\<open>useMemo\<close>. \<open>engine\<close> is the sort of the JavaScript engine on
  inconsistent comparators, \<open>getTime\<close> is \<^verbatim>\<open>parseISO(s).getTime()\<close>; \<open>goalsRef\<close> is the array
  held by the \<open>goals\<close> state. The result is the reference \<^verbatim>\<open>list\<close> and the store after the
  computation.
\<close>

definition filteredGoals ::
  "((Goal \<Rightarrow> Goal \<Rightarrow> int option) \<Rightarrow> Goal list \<Rightarrow> Goal list) \<Rightarrow> (string \<Rightarrow> int option) \<Rightarrow>
   FilterKey \<Rightarrow> SortKey \<Rightarrow> nat \<Rightarrow> Store \<Rightarrow> nat \<times> Store" where
  "filteredGoals engine getTime filterKey sortBy goalsRef h =
     (let (list0, h0) = spread goalsRef h;
          (list1, h1) = (if filterKey = FilterActive
                         then Array_filter (\<lambda>g. \<not> completed g) list0 h0 else (list0, h0));
          (list2, h2) = (if filterKey = FilterCompleted
                         then Array_filter (\<lambda>g. completed g) list1 h1 else (list1, h1));
          h3 = (case sortBy of
                  DeadlineAsc \<Rightarrow>
                    Array_sort engine (\<lambda>a b. minus_time (getTime (deadline a)) (getTime (deadline b))) list2 h2
                | DeadlineDesc \<Rightarrow>
                    Array_sort engine (\<lambda>a b. minus_time (getTime (deadline b)) (getTime (deadline a))) list2 h2
                | PriorityDesc \<Rightarrow>
                    Array_sort engine (\<lambda>a b. Some (priorityOrder (priority b) - priorityOrder (priority a))) list2 h2
                | PriorityAsc \<Rightarrow>
                    Array_sort engine (\<lambda>a b. Some (priorityOrder (priority a) - priorityOrder (priority b))) list2 h2
                | CreatedDesc \<Rightarrow>
                    Array_sort engine (\<lambda>a b. Some (createdAt b - createdAt a)) list2 h2)
      in (list2, h3))"

subsection \<open>The step-counter invariant\<close>

definition steps_in_range :: "Goal \<Rightarrow> bool" where
  "steps_in_range g = (0 \<le> completedSteps g \<and> completedSteps g \<le> steps g)"

text \<open>
  What the handlers that replace one record by id leave alone: position by position the id
  is the same, and a record with another id than \<open>t\<close> is the same record.
\<close>

definition same_but :: "string \<Rightarrow> Goal list \<Rightarrow> Goal list \<Rightarrow> bool" where
  "same_but t before after =
     list_all2 (\<lambda>b a. id_goal a = id_goal b \<and> (id_goal b \<noteq> t \<longrightarrow> a = b)) before after"

subsection \<open>Sample data\<close>

definition goalA :: Goal where
  "goalA = \<lparr>id_goal = ''a1'', title = ''Run a marathon'', description = ''Berlin'',
            deadline = ''2025-09-21T00:00:00.000Z'', priority = Medium, steps = 4,
            completedSteps = 3, completed = False, createdAt = 1000, completedAt = None\<rparr>"

definition goalB :: Goal where
  "goalB = \<lparr>id_goal = ''b2'', title = ''Read'', description = [],
            deadline = ''2025-03-01T00:00:00.000Z'', priority = High, steps = 1,
            completedSteps = 0, completed = True, createdAt = 2000, completedAt = Some 2500\<rparr>"

definition goalC :: Goal where
  "goalC = \<lparr>id_goal = ''c3'', title = ''Paint'', description = [],
            deadline = ''2025-05-01T00:00:00.000Z'', priority = Low, steps = 2,
            completedSteps = 2, completed = True, createdAt = 3000, completedAt = Some 3500\<rparr>"

definition app0 :: App where
  "app0 = \<lparr>goals = [goalC, goalB, goalA], isModalOpen = False, editing = None, undoOpen = False,
           undoTimerRef = None, lastToggledRef = None, timeouts = [], timeoutSeq = 0\<rparr>"

definition lib0 :: Lib where
  "lib0 = \<lparr>uuidv4 = ''d4'', Date_now = 9000,
           trim = (\<lambda>s. rev (dropWhile (\<lambda>c. c = CHR '' '') (rev (dropWhile (\<lambda>c. c = CHR '' '') s)))),
           toISOString = (\<lambda>s. if s = [] then None else Some (s @ ''T00:00:00.000Z''))\<rparr>"

definition form0 :: GoalForm where
  "form0 = \<lparr>title_field = '' Run a marathon'', description_field = ''Berlin'',
            deadline_field = ''2025-09-21'', priority_field = Medium, steps_field = Num 2\<rparr>"

definition toggled0 :: App where
  "toggled0 = handleToggleComplete 5000 goalA app0"

definition lapsed0 :: "App option" where
  "lapsed0 = timeout_elapses 1 toggled0"

definition getItem0 :: "string \<Rightarrow> exn + string option" where
  "getItem0 k = (if k = ''life_goals_v1'' then Inr (Some ''not json'') else Inr None)"

definition JSON_parse0 :: "string \<Rightarrow> exn + json" where
  "JSON_parse0 raw =
     (if raw = ''[]'' then Inr (JArray [])
      else if raw = ''[null]'' then Inr (JArray [JNull])
      else if raw = ''{}'' then Inr (JObject [])
      else Inl SyntaxError)"

definition store0 :: Store where
  "store0 = \<lparr>arrays = (\<lambda>r. if r = 0 then [goalA, goalC, goalB] else []), allocated = 1\<rparr>"

definition edited0 :: App where
  "edited0 = submit_form lib0 form0 (handleEdit goalA app0)"

section \<open>Properties\<close>

subsection \<open>Toggling completion\<close>

lemma replace_by_id_length: "length (replace_by_id x prev) = length prev"
  by (simp add: replace_by_id_def)

lemma replace_by_id_nth:
  "i < length prev \<Longrightarrow>
   replace_by_id x prev ! i = (if id_goal (prev ! i) = id_goal x then x else prev ! i)"
  by (simp add: replace_by_id_def)

lemma goals_clear_undo_timer: "goals (clear_undo_timer s) = goals s"
  by (simp add: clear_undo_timer_def window_clearTimeout_def split: option.splits)

lemma goals_handleToggleComplete:
  "goals (handleToggleComplete now goal s) =
   replace_by_id (goal\<lparr>completed := \<not> completed goal,
                       completedAt := (if \<not> completed goal then Some now else None)\<rparr>) (goals s)"
  by (simp add: handleToggleComplete_def Let_def window_setTimeout_def goals_clear_undo_timer
      split: prod.splits)

lemma goals_handleUndo:
  "goals (handleUndo s) =
   (case lastToggledRef s of None \<Rightarrow> goals s | Some l \<Rightarrow> replace_by_id l (goals s))"
  by (simp add: handleUndo_def goals_clear_undo_timer split: option.splits)

text \<open>
  C5. Toggling completion on the goal shown at position \<open>i\<close> flips \<open>completed\<close>; going
  from false to true it sets \<open>completedAt\<close> to the current time, going from true to false it
  clears \<open>completedAt\<close>; no other field of the record changes.
\<close>

theorem toggle_flips_completed:
  assumes "i < length (goals s)" and "goals s ! i = goal"
  shows "completed (goals (handleToggleComplete now goal s) ! i) = (\<not> completed goal) \<and>
         completedAt (goals (handleToggleComplete now goal s) ! i) =
           (if completed goal then None else Some now) \<and>
         (goals (handleToggleComplete now goal s) ! i)
           \<lparr>completed := completed goal, completedAt := completedAt goal\<rparr> = goal"
  using assms by (simp add: goals_handleToggleComplete replace_by_id_nth)

theorem toggle_flips_completed_witness:
  "2 < length (goals app0) \<and> goals app0 ! 2 = goalA \<and> \<not> completed goalA \<and>
   completed (goals (handleToggleComplete 5000 goalA app0) ! 2) \<and>
   completedAt (goals (handleToggleComplete 5000 goalA app0) ! 2) = Some 5000 \<and>
   1 < length (goals app0) \<and> goals app0 ! 1 = goalB \<and> completed goalB \<and>
   \<not> completed (goals (handleToggleComplete 5000 goalB app0) ! 1) \<and>
   completedAt (goals (handleToggleComplete 5000 goalB app0) ! 1) = None"
proof -
  have a1: "2 < length (goals app0)" and a2: "goals app0 ! 2 = goalA"
    by (simp_all add: app0_def)
  have b1: "1 < length (goals app0)" and b2: "goals app0 ! 1 = goalB"
    by (simp_all add: app0_def)
  show ?thesis
    using a1 a2 b1 b2 toggle_flips_completed [OF a1 a2, of 5000]
      toggle_flips_completed [OF b1 b2, of 5000]
    by (simp add: goalA_def goalB_def)
qed

subsection \<open>Step counters\<close>

lemma number_add_exact:
  assumes "\<bar>x\<bar> < 2 ^ 53"
  shows "number_add x 1 = x + 1 \<and> number_add x (- 1) = x - 1"
proof -
  from assms have "\<bar>x + 1\<bar> \<le> 2 ^ 53" and "\<bar>x - 1\<bar> \<le> 2 ^ 53"
    by linarith+
  then show ?thesis
    by (simp add: number_add_def Let_def)
qed

text \<open>At \<open>2 ^ 53\<close> the double addition of 1 gives back \<open>2 ^ 53\<close>.\<close>

lemma number_add_rounds:
  "number_add (2 ^ 53) 1 = 2 ^ 53 \<and> number_add (2 ^ 53 + 2) (- 1) = 2 ^ 53 \<and>
   number_add (2 ^ 53) (- 1) = 2 ^ 53 - 1"
  by (simp add: number_add_def Let_def)

text \<open>
  C6, as the code has it. For the goal shown at position \<open>i\<close>: increment does nothing when
  the goal is completed or \<open>completedSteps\<close> is at least \<open>steps\<close>, and otherwise, for a
  counter of magnitude below \<open>2 ^ 53\<close>, adds exactly 1 to \<open>completedSteps\<close>; decrement does
  nothing when the goal is completed or \<open>completedSteps\<close> is at most 0, and otherwise, for a
  counter of magnitude below \<open>2 ^ 53\<close>, subtracts exactly 1. No other field changes.
\<close>

theorem step_handlers_guarded:
  assumes "i < length (goals s)" and "goals s ! i = goal"
  shows "(completed goal \<or> steps goal \<le> completedSteps goal \<longrightarrow>
            handleIncrementStep goal s = s) \<and>
         (\<not> completed goal \<and> completedSteps goal < steps goal \<and>
          \<bar>completedSteps goal\<bar> < 2 ^ 53 \<longrightarrow>
            goals (handleIncrementStep goal s) ! i =
              goal\<lparr>completedSteps := completedSteps goal + 1\<rparr>) \<and>
         (completed goal \<or> completedSteps goal \<le> 0 \<longrightarrow>
            handleDecrementStep goal s = s) \<and>
         (\<not> completed goal \<and> 0 < completedSteps goal \<and>
          \<bar>completedSteps goal\<bar> < 2 ^ 53 \<longrightarrow>
            goals (handleDecrementStep goal s) ! i =
              goal\<lparr>completedSteps := completedSteps goal - 1\<rparr>)"
proof -
  have inc: "goals (handleIncrementStep goal s) ! i =
               goal\<lparr>completedSteps := completedSteps goal + 1\<rparr>"
    if "\<not> completed goal" and "completedSteps goal < steps goal"
      and "\<bar>completedSteps goal\<bar> < 2 ^ 53"
    using assms that number_add_exact [of "completedSteps goal"]
    by (simp add: handleIncrementStep_def replace_by_id_nth)
  have dec: "goals (handleDecrementStep goal s) ! i =
               goal\<lparr>completedSteps := completedSteps goal - 1\<rparr>"
    if "\<not> completed goal" and "0 < completedSteps goal"
      and "\<bar>completedSteps goal\<bar> < 2 ^ 53"
    using assms that number_add_exact [of "completedSteps goal"]
    by (simp add: handleDecrementStep_def replace_by_id_nth)
  have noinc: "handleIncrementStep goal s = s"
    if "completed goal \<or> steps goal \<le> completedSteps goal"
    using that by (auto simp add: handleIncrementStep_def)
  have nodec: "handleDecrementStep goal s = s"
    if "completed goal \<or> completedSteps goal \<le> 0"
    using that by (auto simp add: handleDecrementStep_def)
  from inc dec noinc nodec show ?thesis by blast
qed

theorem step_handlers_guarded_witness:
  "2 < length (goals app0) \<and> goals app0 ! 2 = goalA \<and>
   \<not> completed goalA \<and> completedSteps goalA < steps goalA \<and> 0 < completedSteps goalA \<and>
   \<bar>completedSteps goalA\<bar> < 2 ^ 53 \<and>
   completedSteps (goals (handleIncrementStep goalA app0) ! 2) = 4 \<and>
   completedSteps (goals (handleDecrementStep goalA app0) ! 2) = 2 \<and>
   1 < length (goals app0) \<and> goals app0 ! 1 = goalB \<and> completed goalB \<and>
   handleIncrementStep goalB app0 = app0 \<and> handleDecrementStep goalB app0 = app0"
proof -
  have a1: "2 < length (goals app0)" and a2: "goals app0 ! 2 = goalA"
    by (simp_all add: app0_def)
  have b1: "1 < length (goals app0)" and b2: "goals app0 ! 1 = goalB"
    by (simp_all add: app0_def)
  show ?thesis
    using a1 a2 b1 b2 step_handlers_guarded [OF a1 a2] step_handlers_guarded [OF b1 b2]
    by (simp add: goalA_def goalB_def)
qed

text \<open>
  The goal edited down to 2 steps with 3 steps done is not completed and its
  \<open>completedSteps\<close> differs from its \<open>steps\<close>, yet increment leaves its counter as it is.
\<close>

theorem increment_above_steps_counterexample:
  "\<not> completed (goals edited0 ! 2) \<and>
   completedSteps (goals edited0 ! 2) \<noteq> steps (goals edited0 ! 2) \<and>
   completedSteps (goals (handleIncrementStep (goals edited0 ! 2) edited0) ! 2) \<noteq>
     completedSteps (goals edited0 ! 2) + 1"
  by (simp add: edited0_def app0_def goalA_def goalB_def goalC_def lib0_def form0_def
      submit_form_def handleEdit_def handleSubmit_def handleSave_def isEditing_def
      coerce_steps_def Math_round_def replace_by_id_def handleIncrementStep_def)

subsection \<open>The step-counter invariant and the edit form\<close>

lemma list_all_replace_by_id:
  "list_all P prev \<Longrightarrow> P x \<Longrightarrow> list_all P (replace_by_id x prev)"
  by (induction prev) (simp_all add: replace_by_id_def)

text \<open>
  Creation, toggling, undo, deletion and the two step handlers (on a counter of magnitude
  below \<open>2 ^ 53\<close>) keep every counter within range, where the goal handed to a handler and
  the goal remembered for undo are in range themselves.
\<close>

lemma steps_in_range_kept:
  assumes "list_all steps_in_range (goals s)" and "steps_in_range goal"
  shows "list_all steps_in_range (goals (handleToggleComplete now goal s))"
    and "\<bar>completedSteps goal\<bar> < 2 ^ 53 \<Longrightarrow>
         list_all steps_in_range (goals (handleIncrementStep goal s))"
    and "\<bar>completedSteps goal\<bar> < 2 ^ 53 \<Longrightarrow>
         list_all steps_in_range (goals (handleDecrementStep goal s))"
    and "list_all steps_in_range (goals (handleDelete ok goal s))"
    and "lastToggledRef s = Some goal \<Longrightarrow> list_all steps_in_range (goals (handleUndo s))"
proof -
  show "list_all steps_in_range (goals (handleToggleComplete now goal s))"
    using assms
    by (simp add: goals_handleToggleComplete list_all_replace_by_id steps_in_range_def)
  show "list_all steps_in_range (goals (handleIncrementStep goal s))"
    if "\<bar>completedSteps goal\<bar> < 2 ^ 53"
    using assms number_add_exact [OF that]
    by (simp add: handleIncrementStep_def list_all_replace_by_id steps_in_range_def)
  show "list_all steps_in_range (goals (handleDecrementStep goal s))"
    if "\<bar>completedSteps goal\<bar> < 2 ^ 53"
    using assms number_add_exact [OF that]
    by (simp add: handleDecrementStep_def list_all_replace_by_id steps_in_range_def)
  show "list_all steps_in_range (goals (handleDelete ok goal s))"
    using assms by (simp add: handleDelete_def list_all_iff)
  show "list_all steps_in_range (goals (handleUndo s))" if "lastToggledRef s = Some goal"
    using assms that by (simp add: goals_handleUndo list_all_replace_by_id)
qed

lemma coerce_steps_ge_1: "1 \<le> coerce_steps n"
  by (simp add: coerce_steps_def Let_def)

lemma steps_in_range_created:
  assumes "list_all steps_in_range (goals s)" and "editing s = None"
  shows "list_all steps_in_range (goals (submit_form lib f s))"
  using assms coerce_steps_ge_1 [of "steps_field f"]
  by (auto simp add: submit_form_def handleSubmit_def handleSave_def steps_in_range_def
      intro!: list_all_replace_by_id split: option.splits)

text \<open>
  C1 at the edit form. Every goal of \<open>app0\<close> has its counter in range. The goal with 4
  steps, 3 of them done, is opened in the form and saved with the steps field set to 2: the
  stored record has \<open>steps = 2\<close> and \<open>completedSteps = 3\<close>.
\<close>

theorem edit_breaks_steps_in_range:
  "list_all steps_in_range (goals app0) \<and>
   editing (handleEdit goalA app0) = Some goalA \<and>
   steps (goals (submit_form lib0 form0 (handleEdit goalA app0)) ! 2) = 2 \<and>
   completedSteps (goals (submit_form lib0 form0 (handleEdit goalA app0)) ! 2) = 3 \<and>
   \<not> list_all steps_in_range (goals (submit_form lib0 form0 (handleEdit goalA app0)))"
  by (simp add: app0_def goalA_def goalB_def goalC_def lib0_def form0_def steps_in_range_def
      submit_form_def handleEdit_def handleSubmit_def handleSave_def isEditing_def
      coerce_steps_def Math_round_def replace_by_id_def)

subsection \<open>Frame: what a handler leaves alone\<close>

lemma same_but_replace_by_id: "same_but (id_goal x) prev (replace_by_id x prev)"
  by (induction prev) (simp_all add: same_but_def replace_by_id_def)

lemma same_but_refl: "same_but t prev prev"
  by (simp add: same_but_def list_all2_same)

lemma same_but_nth:
  "same_but t before after \<Longrightarrow>
   length after = length before \<and>
   (\<forall>i<length before. id_goal (after ! i) = id_goal (before ! i) \<and>
      (id_goal (before ! i) \<noteq> t \<longrightarrow> after ! i = before ! i))"
  by (auto simp add: same_but_def list_all2_conv_all_nth)

text \<open>
  C10. Toggling, incrementing, decrementing, undo and an update of an existing goal keep
  the length of the repository and the id at every position, and leave every record with
  another id than the target's as it is; saving a goal whose id is not in the repository
  puts it in front of the unchanged list. Delete leaves a subsequence of the repository in
  which the records with another id appear as before, in the same order.
\<close>

theorem handlers_frame:
  "same_but (id_goal goal) (goals s) (goals (handleToggleComplete now goal s)) \<and>
   same_but (id_goal goal) (goals s) (goals (handleIncrementStep goal s)) \<and>
   same_but (id_goal goal) (goals s) (goals (handleDecrementStep goal s)) \<and>
   (case lastToggledRef s of
      None \<Rightarrow> goals (handleUndo s) = goals s
    | Some l \<Rightarrow> same_but (id_goal l) (goals s) (goals (handleUndo s))) \<and>
   (if list_ex (\<lambda>g. id_goal g = id_goal goal) (goals s)
    then same_but (id_goal goal) (goals s) (goals (handleSave goal s))
    else goals (handleSave goal s) = goal # goals s) \<and>
   subseq (goals (handleDelete ok goal s)) (goals s) \<and>
   filter (\<lambda>g. id_goal g \<noteq> id_goal goal) (goals (handleDelete ok goal s)) =
   filter (\<lambda>g. id_goal g \<noteq> id_goal goal) (goals s)"
proof -
  have upd: "same_but (id_goal goal) (goals s)
               (replace_by_id (goal\<lparr>completedSteps := c\<rparr>) (goals s))" for c
    using same_but_replace_by_id [of "goal\<lparr>completedSteps := c\<rparr>" "goals s"] by simp
  have t: "same_but (id_goal goal) (goals s) (goals (handleToggleComplete now goal s))"
    using same_but_replace_by_id [of "goal\<lparr>completed := \<not> completed goal,
      completedAt := (if \<not> completed goal then Some now else None)\<rparr>" "goals s"]
    by (simp add: goals_handleToggleComplete)
  have i: "same_but (id_goal goal) (goals s) (goals (handleIncrementStep goal s))"
    by (simp add: handleIncrementStep_def same_but_refl upd)
  have d: "same_but (id_goal goal) (goals s) (goals (handleDecrementStep goal s))"
    by (simp add: handleDecrementStep_def same_but_refl upd)
  have u: "case lastToggledRef s of
      None \<Rightarrow> goals (handleUndo s) = goals s
    | Some l \<Rightarrow> same_but (id_goal l) (goals s) (goals (handleUndo s))"
    by (simp add: goals_handleUndo same_but_replace_by_id split: option.splits)
  have sv: "if list_ex (\<lambda>g. id_goal g = id_goal goal) (goals s)
    then same_but (id_goal goal) (goals s) (goals (handleSave goal s))
    else goals (handleSave goal s) = goal # goals s"
    by (simp add: handleSave_def same_but_replace_by_id)
  have dl: "subseq (goals (handleDelete ok goal s)) (goals s) \<and>
   filter (\<lambda>g. id_goal g \<noteq> id_goal goal) (goals (handleDelete ok goal s)) =
   filter (\<lambda>g. id_goal g \<noteq> id_goal goal) (goals s)"
    by (simp add: handleDelete_def)
  from t i d u sv dl show ?thesis by blast
qed

theorem handlers_frame_witness:
  "id_goal goalC \<noteq> id_goal goalA \<and> id_goal goalB \<noteq> id_goal goalA \<and>
   goals (handleToggleComplete 5000 goalA app0) =
     [goalC, goalB, goalA\<lparr>completed := True, completedAt := Some 5000\<rparr>] \<and>
   goals (handleIncrementStep goalA app0) = [goalC, goalB, goalA\<lparr>completedSteps := 4\<rparr>] \<and>
   goals (handleDecrementStep goalA app0) = [goalC, goalB, goalA\<lparr>completedSteps := 2\<rparr>] \<and>
   lastToggledRef toggled0 = Some goalA \<and>
   goals (handleUndo toggled0) = [goalC, goalB, goalA] \<and>
   list_ex (\<lambda>g. id_goal g = id_goal (goalA\<lparr>title := ''Walk''\<rparr>)) (goals app0) \<and>
   goals (handleSave (goalA\<lparr>title := ''Walk''\<rparr>) app0) = [goalC, goalB, goalA\<lparr>title := ''Walk''\<rparr>] \<and>
   goals (handleDelete True goalB app0) = [goalC, goalA]"
  using handlers_frame [of goalA app0 5000 True] handlers_frame [of goalA toggled0 5000 True]
    handlers_frame [of "goalA\<lparr>title := ''Walk''\<rparr>" app0 5000 True]
    handlers_frame [of goalB app0 5000 True]
  by (simp add: toggled0_def app0_def goalA_def goalB_def goalC_def goals_handleToggleComplete
      goals_handleUndo replace_by_id_def handleIncrementStep_def handleDecrementStep_def
      handleSave_def handleDelete_def handleToggleComplete_def Let_def window_setTimeout_def
      clear_undo_timer_def number_add_def)

subsection \<open>Update through the edit form\<close>

lemma handleSubmit_editing:
  assumes "id_goal initial \<noteq> []" and "toISOString lib (deadline_field f) = Some d"
  shows "handleSubmit lib (Some initial) f =
         Some \<lparr>id_goal = id_goal initial, title = trim lib (title_field f),
               description = trim lib (description_field f), deadline = d,
               priority = priority_field f, steps = coerce_steps (steps_field f),
               completedSteps = completedSteps initial, completed = completed initial,
               createdAt = createdAt initial, completedAt = completedAt initial\<rparr>"
  using assms by (simp add: handleSubmit_def isEditing_def)

text \<open>
  C2, as the code has it. Submitting the edit form for the goal \<open>initial\<close> (with a date that
  parses) builds a goal with the id and \<open>createdAt\<close> of \<open>initial\<close> and the fields of the
  form. If the repository holds a goal with that id, every record with that id is replaced
  wholesale by the edited goal and the other records stay as and where they are. If no goal
  with that id exists, the edited goal is put in front of the repository.
\<close>

theorem update_replaces_or_prepends:
  assumes "editing s = Some initial" and "id_goal initial \<noteq> []"
    and "toISOString lib (deadline_field f) = Some d"
  shows "\<exists>edited. handleSubmit lib (editing s) f = Some edited \<and>
           id_goal edited = id_goal initial \<and> createdAt edited = createdAt initial \<and>
           title edited = trim lib (title_field f) \<and>
           description edited = trim lib (description_field f) \<and>
           deadline edited = d \<and> priority edited = priority_field f \<and>
           steps edited = coerce_steps (steps_field f) \<and>
           (if list_ex (\<lambda>g. id_goal g = id_goal initial) (goals s)
            then length (goals (submit_form lib f s)) = length (goals s) \<and>
                 (\<forall>i<length (goals s).
                    goals (submit_form lib f s) ! i =
                      (if id_goal (goals s ! i) = id_goal initial then edited else goals s ! i))
            else goals (submit_form lib f s) = edited # goals s)"
  using assms
  by (simp add: handleSubmit_editing submit_form_def handleSave_def replace_by_id_length
      replace_by_id_nth)

theorem update_replaces_or_prepends_witness:
  "editing (handleEdit goalA app0) = Some goalA \<and> id_goal goalA \<noteq> [] \<and>
   toISOString lib0 (deadline_field form0) = Some ''2025-09-21T00:00:00.000Z'' \<and>
   list_ex (\<lambda>g. id_goal g = id_goal goalA) (goals (handleEdit goalA app0)) \<and>
   goals (submit_form lib0 form0 (handleEdit goalA app0)) = [goalC, goalB, goalA\<lparr>steps := 2\<rparr>]"
proof -
  have h1: "editing (handleEdit goalA app0) = Some goalA" by (simp add: handleEdit_def)
  have h2: "id_goal goalA \<noteq> []" by (simp add: goalA_def)
  have h3: "toISOString lib0 (deadline_field form0) = Some ''2025-09-21T00:00:00.000Z''"
    by (simp add: lib0_def form0_def)
  show ?thesis
    using h1 h2 h3 update_replaces_or_prepends [OF h1 h2 h3]
    by (simp add: handleEdit_def app0_def submit_form_def handleSubmit_def isEditing_def
        handleSave_def replace_by_id_def goalA_def goalB_def goalC_def lib0_def form0_def
        coerce_steps_def Math_round_def)
qed

text \<open>
  The goal being edited is deleted while the form is open; the form is then submitted. No
  goal with its id is in the repository, and the submission changes the repository.
\<close>

theorem update_not_found_counterexample:
  "editing (handleDelete True goalA (handleEdit goalA app0)) = Some goalA \<and>
   \<not> list_ex (\<lambda>g. id_goal g = id_goal goalA)
       (goals (handleDelete True goalA (handleEdit goalA app0))) \<and>
   goals (submit_form lib0 form0 (handleDelete True goalA (handleEdit goalA app0))) \<noteq>
   goals (handleDelete True goalA (handleEdit goalA app0))"
  by (simp add: handleEdit_def handleDelete_def app0_def submit_form_def handleSubmit_def
      isEditing_def handleSave_def replace_by_id_def goalA_def goalB_def goalC_def lib0_def
      form0_def coerce_steps_def Math_round_def)

subsection \<open>The undo slot and its countdown\<close>

lemma toggle_fields:
  "undoOpen (handleToggleComplete now goal s) \<and>
   lastToggledRef (handleToggleComplete now goal s) = Some goal \<and>
   undoTimerRef (handleToggleComplete now goal s) = Some (Suc (timeoutSeq s)) \<and>
   timeoutSeq (handleToggleComplete now goal s) = Suc (timeoutSeq s) \<and>
   timeouts (handleToggleComplete now goal s) =
     (case undoTimerRef s of None \<Rightarrow> timeouts s
      | Some h \<Rightarrow> if h \<noteq> 0 then removeAll h (timeouts s) else timeouts s) @ [Suc (timeoutSeq s)]"
  by (simp add: handleToggleComplete_def Let_def window_setTimeout_def clear_undo_timer_def
      window_clearTimeout_def split: option.splits)

lemma replace_by_id_twice:
  "id_goal y = id_goal x \<Longrightarrow> replace_by_id x (replace_by_id y prev) = replace_by_id x prev"
  by (induction prev) (simp_all add: replace_by_id_def)

lemma replace_by_id_member:
  assumes "distinct (map id_goal prev)" and "x \<in> set prev"
  shows "replace_by_id x prev = prev"
proof -
  have "inj_on id_goal (set prev)" using assms(1) by (simp add: distinct_map)
  then have "\<And>g. g \<in> set prev \<Longrightarrow> id_goal g = id_goal x \<Longrightarrow> g = x"
    using assms(2) by (auto dest: inj_onD)
  then show ?thesis unfolding replace_by_id_def by (intro map_idI) auto
qed

lemma undo_after_toggle:
  "handleUndo (handleToggleComplete now goal s) =
   (handleToggleComplete now goal s)
     \<lparr>goals := replace_by_id goal (goals s), undoOpen := False, lastToggledRef := None,
      timeouts := removeAll (Suc (timeoutSeq s)) (timeouts (handleToggleComplete now goal s))\<rparr>"
  using toggle_fields [of now goal s]
  by (simp add: handleUndo_def clear_undo_timer_def window_clearTimeout_def
      goals_handleToggleComplete replace_by_id_twice)

text \<open>
  C3, as the code has it. After a completion toggle the countdown it started can elapse;
  when it does, the undo notification closes and nothing else changes: the repository is as
  the toggle left it and the remembered record is still in the slot. With the notification
  closed there is no Undo button to press. The handler \<open>handleUndo\<close> itself, run in that
  state, would put the remembered record back.
\<close>

theorem countdown_lapse_keeps_slot:
  "\<exists>h s'. undoTimerRef (handleToggleComplete now goal s) = Some h \<and>
      timeout_elapses h (handleToggleComplete now goal s) = Some s' \<and>
      goals s' = goals (handleToggleComplete now goal s) \<and>
      lastToggledRef s' = Some goal \<and>
      \<not> undoOpen s' \<and> Toast_onUndo s' = None \<and>
      goals (handleUndo s') = replace_by_id goal (goals s')"
  by (simp add: toggle_fields timeout_elapses_def Toast_onUndo_def goals_handleUndo)

theorem countdown_lapse_keeps_slot_witness:
  "undoTimerRef toggled0 = Some 1 \<and>
   lapsed0 = Some (toggled0\<lparr>undoOpen := False, timeouts := []\<rparr>) \<and>
   goals (the lapsed0) = [goalC, goalB, goalA\<lparr>completed := True, completedAt := Some 5000\<rparr>] \<and>
   lastToggledRef (the lapsed0) = Some goalA \<and>
   Toast_onUndo (the lapsed0) = None"
  using countdown_lapse_keeps_slot [of 5000 goalA app0]
  by (simp add: lapsed0_def toggled0_def toggle_fields timeout_elapses_def Toast_onUndo_def
      goals_handleToggleComplete app0_def replace_by_id_def goalA_def goalB_def goalC_def)

text \<open>
  A goal is toggled and the countdown elapses. The slot still holds the record from before
  the toggle, and \<open>handleUndo\<close> run in that state changes the repository.
\<close>

theorem lapse_then_undo_counterexample:
  "lapsed0 \<noteq> None \<and> lastToggledRef (the lapsed0) = Some goalA \<and>
   goals (handleUndo (the lapsed0)) \<noteq> goals (the lapsed0)"
  by (simp add: lapsed0_def toggled0_def toggle_fields timeout_elapses_def goals_handleUndo
      goals_handleToggleComplete app0_def replace_by_id_def goalA_def goalB_def goalC_def)

text \<open>
  C4. A goal shown at position \<open>i\<close> is toggled. While the notification is open the Undo
  button runs \<open>handleUndo\<close>, after which the record at position \<open>i\<close> is the record from
  before the toggle in every field, the records with another id are untouched (with unique
  ids the whole repository is as before the toggle), the countdown started by the toggle is
  no longer scheduled and cannot elapse, and the slot is empty. Toggling a second goal
  \<open>goal'\<close> before the countdown elapses cancels the first countdown and puts \<open>goal'\<close> in the
  slot, so that undo then restores \<open>goal'\<close> only.
\<close>

theorem undo_restores_pre_toggle:
  assumes "i < length (goals s)" and "goals s ! i = goal"
  shows "Toast_onUndo (handleToggleComplete now goal s) =
           Some (handleUndo (handleToggleComplete now goal s)) \<and>
         goals (handleUndo (handleToggleComplete now goal s)) ! i = goal \<and>
         same_but (id_goal goal) (goals s) (goals (handleUndo (handleToggleComplete now goal s))) \<and>
         (distinct (map id_goal (goals s)) \<longrightarrow>
            goals (handleUndo (handleToggleComplete now goal s)) = goals s) \<and>
         (\<exists>h. undoTimerRef (handleToggleComplete now goal s) = Some h \<and>
              h \<in> set (timeouts (handleToggleComplete now goal s)) \<and>
              h \<notin> set (timeouts (handleUndo (handleToggleComplete now goal s))) \<and>
              timeout_elapses h (handleUndo (handleToggleComplete now goal s)) = None \<and>
              h \<notin> set (timeouts (handleToggleComplete now' goal' (handleToggleComplete now goal s)))) \<and>
         lastToggledRef (handleUndo (handleToggleComplete now goal s)) = None \<and>
         \<not> undoOpen (handleUndo (handleToggleComplete now goal s)) \<and>
         lastToggledRef (handleToggleComplete now' goal' (handleToggleComplete now goal s)) =
           Some goal' \<and>
         goals (handleUndo (handleToggleComplete now' goal' (handleToggleComplete now goal s))) =
           replace_by_id goal' (goals (handleToggleComplete now goal s))"
proof -
  let ?t = "handleToggleComplete now goal s"
  let ?u = "handleUndo ?t"
  let ?r = "handleToggleComplete now' goal' ?t"
  have gu: "goals ?u = replace_by_id goal (goals s)"
    by (simp add: undo_after_toggle)
  have c1: "Toast_onUndo ?t = Some ?u"
    by (simp add: Toast_onUndo_def toggle_fields)
  have c2: "goals ?u ! i = goal"
    using assms by (simp add: gu replace_by_id_nth)
  have c3: "same_but (id_goal goal) (goals s) (goals ?u)"
    by (simp add: gu same_but_replace_by_id)
  have c4: "distinct (map id_goal (goals s)) \<longrightarrow> goals ?u = goals s"
    using assms by (auto simp add: gu intro!: replace_by_id_member)
  have c5: "\<exists>h. undoTimerRef ?t = Some h \<and> h \<in> set (timeouts ?t) \<and>
              h \<notin> set (timeouts ?u) \<and> timeout_elapses h ?u = None \<and> h \<notin> set (timeouts ?r)"
    using toggle_fields [of now goal s] toggle_fields [of now' goal' ?t]
    by (simp add: undo_after_toggle timeout_elapses_def)
  have c6: "lastToggledRef ?u = None \<and> \<not> undoOpen ?u"
    by (simp add: undo_after_toggle)
  have c7: "lastToggledRef ?r = Some goal'"
    by (simp add: toggle_fields)
  have c8: "goals (handleUndo ?r) = replace_by_id goal' (goals ?t)"
    by (simp add: undo_after_toggle)
  from c1 c2 c3 c4 c5 c6 c7 c8 show ?thesis by blast
qed

theorem undo_restores_pre_toggle_witness:
  "2 < length (goals app0) \<and> goals app0 ! 2 = goalA \<and> distinct (map id_goal (goals app0)) \<and>
   goals (handleToggleComplete 5000 goalA app0) \<noteq> goals app0 \<and>
   goals (handleUndo (handleToggleComplete 5000 goalA app0)) = goals app0 \<and>
   timeouts (handleToggleComplete 5000 goalA app0) = [1] \<and>
   timeouts (handleUndo (handleToggleComplete 5000 goalA app0)) = [] \<and>
   timeouts (handleToggleComplete 6000 goalB (handleToggleComplete 5000 goalA app0)) = [2] \<and>
   lastToggledRef (handleToggleComplete 6000 goalB (handleToggleComplete 5000 goalA app0)) =
     Some goalB"
proof -
  have h1: "2 < length (goals app0)" and h2: "goals app0 ! 2 = goalA"
    by (simp_all add: app0_def)
  have h3: "distinct (map id_goal (goals app0))"
    by (simp add: app0_def goalA_def goalB_def goalC_def)
  show ?thesis
    using h1 h2 h3 undo_restores_pre_toggle [OF h1 h2, of 5000 6000 goalB]
    by (simp add: toggle_fields goals_handleToggleComplete undo_after_toggle
       app0_def goalA_def goalB_def goalC_def replace_by_id_def)
qed

subsection \<open>Creation\<close>







subsection \<open>Loading from storage\<close>

text \<open>
  C8. \<open>loadGoals\<close> always returns a list. It returns the empty list when reading the key
  throws, when the key is absent, when the stored string does not parse (the string
  \<open>not json\<close> in particular), and when it parses to something that is not an array; when a
  non-empty stored string parses to an array, it returns the elements of that array.
\<close>

theorem loadGoals_cases:
  "(\<forall>e. getItem STORAGE_KEY = Inl e \<longrightarrow> loadGoals getItem JSON_parse = []) \<and>
   (getItem STORAGE_KEY = Inr None \<longrightarrow> loadGoals getItem JSON_parse = []) \<and>
   (\<forall>raw e. getItem STORAGE_KEY = Inr (Some raw) \<and> JSON_parse raw = Inl e \<longrightarrow>
      loadGoals getItem JSON_parse = []) \<and>
   (getItem STORAGE_KEY = Inr (Some ''not json'') \<and> JSON_parse ''not json'' = Inl SyntaxError \<longrightarrow>
      loadGoals getItem JSON_parse = []) \<and>
   (\<forall>raw v. getItem STORAGE_KEY = Inr (Some raw) \<and> JSON_parse raw = Inr v \<and>
      (\<forall>xs. v \<noteq> JArray xs) \<longrightarrow> loadGoals getItem JSON_parse = []) \<and>
   (\<forall>raw xs. getItem STORAGE_KEY = Inr (Some raw) \<and> raw \<noteq> [] \<and>
      JSON_parse raw = Inr (JArray xs) \<longrightarrow> loadGoals getItem JSON_parse = xs)"
  by (auto simp add: loadGoals_def loadGoals_try_def split: sum.splits option.splits json.splits)

theorem loadGoals_cases_witness:
  "getItem0 STORAGE_KEY = Inr (Some ''not json'') \<and> JSON_parse0 ''not json'' = Inl SyntaxError \<and>
   loadGoals getItem0 JSON_parse0 = [] \<and>
   loadGoals (\<lambda>k. Inr None) JSON_parse0 = [] \<and>
   loadGoals (\<lambda>k. Inl SecurityError) JSON_parse0 = [] \<and>
   JSON_parse0 ''{}'' = Inr (JObject []) \<and> loadGoals (\<lambda>k. Inr (Some ''{}'')) JSON_parse0 = [] \<and>
   JSON_parse0 ''[null]'' = Inr (JArray [JNull]) \<and>
   loadGoals (\<lambda>k. Inr (Some ''[null]'')) JSON_parse0 = [JNull]"
  using loadGoals_cases [of getItem0 JSON_parse0]
    loadGoals_cases [of "\<lambda>k. Inr None" JSON_parse0]
    loadGoals_cases [of "\<lambda>k. Inl SecurityError" JSON_parse0]
    loadGoals_cases [of "\<lambda>k. Inr (Some ''{}'')" JSON_parse0]
    loadGoals_cases [of "\<lambda>k. Inr (Some ''[null]'')" JSON_parse0]
  by (simp add: getItem0_def JSON_parse0_def STORAGE_KEY_def)

subsection \<open>The completed goals by descending priority\<close>

lemma insert_stable_skip:
  "\<forall>y\<in>set as. 0 < SortCompare c x y \<Longrightarrow>
   insert_stable c x (as @ bs) = as @ insert_stable c x bs"
  by (induction as) simp_all

lemma insert_stable_stop:
  "\<forall>y\<in>set bs. SortCompare c x y \<le> 0 \<Longrightarrow> insert_stable c x bs = x # bs"
  by (cases bs) simp_all

lemma insert_stable_priority:
  "insert_stable (\<lambda>a b. Some (priorityOrder (priority b) - priorityOrder (priority a))) x
     (filter (\<lambda>g. priority g = High) xs @ filter (\<lambda>g. priority g = Medium) xs @
      filter (\<lambda>g. priority g = Low) xs) =
   filter (\<lambda>g. priority g = High) (x # xs) @ filter (\<lambda>g. priority g = Medium) (x # xs) @
     filter (\<lambda>g. priority g = Low) (x # xs)"
  (is "insert_stable ?c x (?H @ ?M @ ?L) = _")
proof (cases "priority x")
  case High
  then have "insert_stable ?c x (?H @ ?M @ ?L) = x # ?H @ ?M @ ?L"
    by (intro insert_stable_stop) (auto simp add: SortCompare_def priorityOrder_def)
  with High show ?thesis by simp
next
  case Medium
  then have "insert_stable ?c x (?H @ ?M @ ?L) = ?H @ insert_stable ?c x (?M @ ?L)"
    by (intro insert_stable_skip) (auto simp add: SortCompare_def priorityOrder_def)
  moreover from Medium have "insert_stable ?c x (?M @ ?L) = x # ?M @ ?L"
    by (intro insert_stable_stop) (auto simp add: SortCompare_def priorityOrder_def)
  ultimately show ?thesis using Medium by simp
next
  case Low
  then have "insert_stable ?c x ((?H @ ?M) @ ?L) = (?H @ ?M) @ insert_stable ?c x ?L"
    by (intro insert_stable_skip) (auto simp add: SortCompare_def priorityOrder_def)
  moreover from Low have "insert_stable ?c x ?L = x # ?L"
    by (intro insert_stable_stop) (auto simp add: SortCompare_def priorityOrder_def)
  ultimately show ?thesis using Low by simp
qed

lemma sorted_stable_priority:
  "sorted_stable (\<lambda>a b. Some (priorityOrder (priority b) - priorityOrder (priority a))) xs =
   filter (\<lambda>g. priority g = High) xs @ filter (\<lambda>g. priority g = Medium) xs @
     filter (\<lambda>g. priority g = Low) xs"
proof (induction xs)
  case Nil
  show ?case by simp
next
  case (Cons x xs)
  show ?case
    by (simp only: sorted_stable.simps Cons.IH insert_stable_priority)
qed

lemma mset_by_priority:
  "mset (filter (\<lambda>g. priority g = High) xs @ filter (\<lambda>g. priority g = Medium) xs @
     filter (\<lambda>g. priority g = Low) xs) = mset xs"
proof (induction xs)
  case Nil
  show ?case by simp
next
  case (Cons x xs)
  then show ?case by (cases "priority x") simp_all
qed

lemma sorted_wrt_all_pairs:
  "(\<And>x y. x \<in> set xs \<Longrightarrow> y \<in> set xs \<Longrightarrow> R x y) \<Longrightarrow> sorted_wrt R xs"
  by (induction xs) simp_all

lemma sorted_wrt_by_priority:
  "sorted_wrt (\<lambda>a b. priorityOrder (priority b) \<le> priorityOrder (priority a))
     (filter (\<lambda>g. priority g = High) xs @ filter (\<lambda>g. priority g = Medium) xs @
      filter (\<lambda>g. priority g = Low) xs)"
proof -
  let ?R = "\<lambda>a b. priorityOrder (priority b) \<le> priorityOrder (priority a)"
  have eq: "sorted_wrt ?R (filter (\<lambda>g. priority g = p) xs)" for p
    by (rule sorted_wrt_all_pairs) simp
  show ?thesis
    by (simp add: sorted_wrt_append eq) (simp add: priorityOrder_def)
qed

lemma filteredGoals_completed_priority:
  "filteredGoals engine getTime FilterCompleted PriorityDesc goalsRef h =
   (Suc (allocated h),
    \<lparr>arrays = (arrays h)
       (allocated h := arrays h goalsRef,
        Suc (allocated h) :=
          sorted_stable (\<lambda>a b. Some (priorityOrder (priority b) - priorityOrder (priority a)))
            (filter completed (arrays h goalsRef))),
     allocated = Suc (Suc (allocated h))\<rparr>)"
  by (simp add: filteredGoals_def spread_def new_array_def Array_filter_def Array_sort_def
      never_NaN_def list_all_iff)

text \<open>
  C9. With the filter \<open>completed\<close> and the sort key \<open>priority-desc\<close>, the view computed from
  the array \<open>goalsRef\<close> holds exactly the goals of that array with \<open>completed\<close> true, each as
  often as the array has it: first those of priority High, then those of priority Medium,
  then those of priority Low, each group in the order of the array. The view is an array of
  its own, and the source array, like every array that existed before, is unchanged.
\<close>

theorem completed_view_by_priority:
  assumes "goalsRef < allocated h"
    and "filteredGoals engine getTime FilterCompleted PriorityDesc goalsRef h = (r, h')"
  shows "mset (arrays h' r) = mset (filter completed (arrays h goalsRef)) \<and>
         arrays h' r =
           filter (\<lambda>g. priority g = High) (filter completed (arrays h goalsRef)) @
           filter (\<lambda>g. priority g = Medium) (filter completed (arrays h goalsRef)) @
           filter (\<lambda>g. priority g = Low) (filter completed (arrays h goalsRef)) \<and>
         sorted_wrt (\<lambda>a b. priorityOrder (priority b) \<le> priorityOrder (priority a)) (arrays h' r) \<and>
         arrays h' goalsRef = arrays h goalsRef \<and> r \<noteq> goalsRef \<and>
         (\<forall>a<allocated h. arrays h' a = arrays h a)"
proof -
  let ?cs = "filter completed (arrays h goalsRef)"
  from assms(2) have r: "r = Suc (allocated h)"
    and h': "arrays h' = (arrays h)(allocated h := arrays h goalsRef,
               Suc (allocated h) := sorted_stable
                 (\<lambda>a b. Some (priorityOrder (priority b) - priorityOrder (priority a))) ?cs)"
    by (auto simp add: filteredGoals_completed_priority)
  have view: "arrays h' r =
      filter (\<lambda>g. priority g = High) ?cs @ filter (\<lambda>g. priority g = Medium) ?cs @
      filter (\<lambda>g. priority g = Low) ?cs"
    by (simp add: r h' sorted_stable_priority)
  have m: "mset (arrays h' r) = mset ?cs"
    by (simp only: view mset_by_priority)
  have s: "sorted_wrt (\<lambda>a b. priorityOrder (priority b) \<le> priorityOrder (priority a)) (arrays h' r)"
    by (simp only: view sorted_wrt_by_priority)
  have f: "\<forall>a<allocated h. arrays h' a = arrays h a"
    by (simp add: h')
  from assms(1) f have g: "arrays h' goalsRef = arrays h goalsRef" by blast
  from assms(1) have n: "r \<noteq> goalsRef" by (simp add: r)
  from m view s g n f show ?thesis by blast
qed

theorem completed_view_by_priority_witness:
  "0 < allocated store0 \<and>
   filteredGoals (\<lambda>c xs. xs) (\<lambda>s. None) FilterCompleted PriorityDesc 0 store0 =
     (2, \<lparr>arrays = (arrays store0)(1 := [goalA, goalC, goalB], 2 := [goalB, goalC]),
          allocated = 3\<rparr>) \<and>
   arrays store0 0 = [goalA, goalC, goalB] \<and>
   filter completed (arrays store0 0) = [goalC, goalB]"
proof -
  have h1: "0 < allocated store0" by (simp add: store0_def)
  have h2: "filteredGoals (\<lambda>c xs. xs) (\<lambda>s. None) FilterCompleted PriorityDesc 0 store0 =
     (2, \<lparr>arrays = (arrays store0)(1 := [goalA, goalC, goalB], 2 := [goalB, goalC]),
          allocated = 3\<rparr>)"
    by (simp add: filteredGoals_def spread_def new_array_def Array_filter_def Array_sort_def
        store0_def goalA_def goalB_def goalC_def SortCompare_def priorityOrder_def
        never_NaN_def numeral_2_eq_2 numeral_3_eq_3)
  show ?thesis
    using h1 h2 completed_view_by_priority [OF h1 h2]
    by (simp add: store0_def goalA_def goalB_def goalC_def)
qed

end
